theory Spec2Isabelle
  imports Complex_Main
begin

section \<open>Python values used by the detector\<close>

text \<open>
  A Python \<^verbatim>\<open>float\<close> is either a finite number, one of the two infinities, or
  not-a-number. Only the comparison \<^verbatim>\<open>>=\<close> is used by the code; on finite floats
  it is the order of the reals they denote, and every comparison with not-a-number is
  false.
\<close>

datatype pyfloat = Finite real | PosInf | NegInf | NaN

fun py_ge :: "pyfloat \<Rightarrow> pyfloat \<Rightarrow> bool" where
  "py_ge NaN _ = False"
| "py_ge _ NaN = False"
| "py_ge PosInf _ = True"
| "py_ge _ NegInf = True"
| "py_ge (Finite a) (Finite b) = (b \<le> a)"
| "py_ge (Finite _) PosInf = False"
| "py_ge NegInf _ = False"

text \<open>
  The values stored in the \<^verbatim>\<open>ml_result\<close> dictionary (\<^verbatim>\<open>Dict[str, Any]\<close>):
  a float under \<^verbatim>\<open>"probability"\<close>, a string under \<^verbatim>\<open>"label"\<close>. The dictionary
  itself is a map from keys to values, so that a missing key is visible.
\<close>

datatype pyval = PyFloat pyfloat | PyStr string

type_synonym pydict = "string \<rightharpoonup> pyval"

datatype error =
    FileNotFoundError string
  | JoblibError string
  | IndexError
  | TypeError

text \<open>\<^verbatim>\<open>value >= threshold\<close> where the left operand comes out of a dictionary:
  comparing a \<^verbatim>\<open>str\<close> with a \<^verbatim>\<open>float\<close> raises \<^verbatim>\<open>TypeError\<close>.\<close>

fun pyval_ge :: "pyval \<Rightarrow> pyfloat \<Rightarrow> error + bool" where
  "pyval_ge (PyFloat p) t = Inr (py_ge p t)"
| "pyval_ge (PyStr _) t = Inl TypeError"

text \<open>\<^verbatim>\<open>d.get(key, default)\<close>\<close>

definition dict_get :: "pydict \<Rightarrow> string \<Rightarrow> pyval \<Rightarrow> pyval" where
  "dict_get d k dflt = (case d k of None \<Rightarrow> dflt | Some v \<Rightarrow> v)"

section \<open>Findings\<close>

text \<open>One entry of the list returned by the static analysis: the dictionary with the
  keys \<^verbatim>\<open>rule\<close>, \<^verbatim>\<open>line\<close>, \<^verbatim>\<open>snippet\<close> and \<^verbatim>\<open>pattern\<close>.\<close>

record finding =
  rule :: string
  line :: nat
  snippet :: string
  pattern :: string

section \<open>hybrid\_detector.compute\_severity\<close>

text \<open>
  \<^verbatim>\<open>
  has_static = len(static_findings) > 0
  ml_prob = ml_result.get("probability", 0.0)
  ml_flag = ml_prob >= ml_threshold or ml_result.get("label") == "vulnerable"
  if has_static and ml_flag: return "HIGHty"
  if has_static or ml_flag: return "MEDIUM"
  return "SAFEtt"
  \<close>
  The \<^verbatim>\<open>or\<close> is short-circuit: the label is looked at only when the comparison is
  false. \<^verbatim>\<open>ml_result.get("label")\<close> is \<^verbatim>\<open>None\<close> for a missing key, which is not
  equal to a string.
\<close>

definition compute_severity :: "finding list \<Rightarrow> pydict \<Rightarrow> pyfloat \<Rightarrow> error + string" where
  "compute_severity static_findings ml_result ml_threshold =
     (let has_static = (length static_findings > 0);
          ml_prob = dict_get ml_result ''probability'' (PyFloat (Finite 0))
      in case pyval_ge ml_prob ml_threshold of
           Inl e \<Rightarrow> Inl e
         | Inr ge \<Rightarrow>
             let ml_flag = (ge \<or> ml_result ''label'' = Some (PyStr ''vulnerable''))
             in if has_static \<and> ml_flag then Inr ''HIGHty''
                else if has_static \<or> ml_flag then Inr ''MEDIUM''
                else Inr ''SAFEtt'')"

text \<open>The default of the third parameter.\<close>

definition default_threshold :: pyfloat where
  "default_threshold = Finite 0.5"

section \<open>Text: characters, lines, trimming\<close>

text \<open>
  A Python \<^verbatim>\<open>str\<close> is a sequence of code points; a \<^typ>\<open>string\<close> here is a list
  of 8-bit characters, read as the code points 0 to 255. The character classes below
  are Python's on that range: \<^verbatim>\<open>str.isspace\<close> (also the class \<^verbatim>\<open>\s\<close> of
  \<^verbatim>\<open>re\<close>), the word characters \<^verbatim>\<open>\w\<close> of \<^verbatim>\<open>re\<close>, and the line boundaries
  of \<^verbatim>\<open>str.splitlines\<close>.
\<close>

definition is_space :: "char \<Rightarrow> bool" where
  "is_space c =
     (let n = (of_char c :: nat)
      in (9 \<le> n \<and> n \<le> 13) \<or> (28 \<le> n \<and> n \<le> 32) \<or> n = 133 \<or> n = 160)"

definition is_word :: "char \<Rightarrow> bool" where
  "is_word c =
     (let n = (of_char c :: nat)
      in (48 \<le> n \<and> n \<le> 57) \<or> (65 \<le> n \<and> n \<le> 90) \<or> n = 95 \<or> (97 \<le> n \<and> n \<le> 122) \<or>
         n = 170 \<or> n = 178 \<or> n = 179 \<or> n = 181 \<or> n = 185 \<or> n = 186 \<or>
         (188 \<le> n \<and> n \<le> 190) \<or> (192 \<le> n \<and> n \<le> 214) \<or> (216 \<le> n \<and> n \<le> 246) \<or>
         (248 \<le> n \<and> n \<le> 255))"

definition is_linebreak :: "char \<Rightarrow> bool" where
  "is_linebreak c =
     (let n = (of_char c :: nat)
      in (10 \<le> n \<and> n \<le> 13) \<or> (28 \<le> n \<and> n \<le> 30) \<or> n = 133)"

definition in_range :: "char \<Rightarrow> char \<Rightarrow> char \<Rightarrow> bool" where
  "in_range lo hi c = ((of_char lo :: nat) \<le> of_char c \<and> (of_char c :: nat) \<le> of_char hi)"

text \<open>
  \<^verbatim>\<open>code.splitlines()\<close>: the text is cut at every line boundary, a carriage return
  directly followed by a line feed counting as one boundary; the boundaries are not
  kept, and a text that ends with a boundary has no empty last line. The first
  argument collects, in reverse, the characters of the line being read.
\<close>

fun splitlines_from :: "string \<Rightarrow> string \<Rightarrow> string list" where
  "splitlines_from cur [] = (if cur = [] then [] else [rev cur])"
| "splitlines_from cur (c # cs) =
     (if is_linebreak c then
        rev cur #
          (case cs of
             d # ds \<Rightarrow> if c = CHR 0x0D \<and> d = CHR 0x0A then splitlines_from [] ds
                       else splitlines_from [] cs
           | [] \<Rightarrow> splitlines_from [] cs)
      else splitlines_from (c # cur) cs)"

definition splitlines :: "string \<Rightarrow> string list" where
  "splitlines code = splitlines_from [] code"

text \<open>\<^verbatim>\<open>line.strip()\<close>: whitespace removed at both ends.\<close>

definition strip :: "string \<Rightarrow> string" where
  "strip s = rev (dropWhile is_space (rev (dropWhile is_space s)))"

section \<open>Regular expressions\<close>

text \<open>
  The patterns of the static analysis use literals, character classes, alternation,
  concatenation, repetition and the word boundary \<^verbatim>\<open>\b\<close>. A position in a line is
  the character before it (if any) and the text after it. \<open>consume r p\<close> lists the
  positions that can be reached from \<open>p\<close> by matching \<open>r\<close>, one entry for every way
  of matching, as a backtracking matcher explores them. A repetition takes only
  iterations that advance: an iteration matching the empty text reaches nothing new.
\<close>

datatype rx = Eps | Sym "char \<Rightarrow> bool" | Alt rx rx | Seq rx rx | Star rx | WordB

type_synonym pos = "char option \<times> string"

definition word_before :: "pos \<Rightarrow> bool" where
  "word_before p = (case fst p of None \<Rightarrow> False | Some c \<Rightarrow> is_word c)"

definition word_after :: "pos \<Rightarrow> bool" where
  "word_after p = (case snd p of [] \<Rightarrow> False | c # _ \<Rightarrow> is_word c)"

function consume :: "rx \<Rightarrow> pos \<Rightarrow> pos list" where
  "consume Eps p = [p]"
| "consume (Sym P) p = (case snd p of [] \<Rightarrow> [] | c # cs \<Rightarrow> if P c then [(Some c, cs)] else [])"
| "consume (Alt a b) p = consume a p @ consume b p"
| "consume (Seq a b) p = concat (map (consume b) (consume a p))"
| "consume (Star a) p =
     p # concat (map (consume (Star a))
                     (filter (\<lambda>q. length (snd q) < length (snd p)) (consume a p)))"
| "consume WordB p = (if word_before p \<noteq> word_after p then [p] else [])"
  by pat_completeness auto
termination
  by (relation "measure size <*lex*> measure (length \<circ> snd)") auto

text \<open>\<^verbatim>\<open>pattern.search(line)\<close>, as a truth value: is there a position of the line
  from which the pattern matches?\<close>

fun search_from :: "rx \<Rightarrow> char option \<Rightarrow> string \<Rightarrow> bool" where
  "search_from r prev [] = (consume r (prev, []) \<noteq> [])"
| "search_from r prev (c # cs) = (consume r (prev, c # cs) \<noteq> [] \<or> search_from r (Some c) cs)"

text \<open>The notation of \<^verbatim>\<open>re\<close>. Under \<^verbatim>\<open>re.IGNORECASE\<close> a letter of the pattern
  matches that letter in lower and in upper case (on the code points 0 to 255 nothing
  else), so a case-insensitive literal is given by its two spellings.\<close>

definition rx_lit :: "char \<Rightarrow> rx" where
  "rx_lit c = Sym (\<lambda>x. x = c)"

definition rx_lit_i :: "char \<Rightarrow> char \<Rightarrow> rx" where
  "rx_lit_i l u = Sym (\<lambda>x. x = l \<or> x = u)"

definition rx_dot :: rx where
  "rx_dot = Sym (\<lambda>x. x \<noteq> CHR 0x0A)"

definition rx_space :: rx where
  "rx_space = Sym is_space"

definition rx_plus :: "rx \<Rightarrow> rx" where
  "rx_plus r = Seq r (Star r)"

fun rx_seq :: "rx list \<Rightarrow> rx" where
  "rx_seq [] = Eps"
| "rx_seq [r] = r"
| "rx_seq (r # rs) = Seq r (rx_seq rs)"

fun rx_alt :: "rx \<Rightarrow> rx list \<Rightarrow> rx" where
  "rx_alt r [] = r"
| "rx_alt r (r' # rs) = Alt r (rx_alt r' rs)"

definition rx_str :: "string \<Rightarrow> rx" where
  "rx_str s = rx_seq (map rx_lit s)"

definition rx_str_i :: "string \<Rightarrow> string \<Rightarrow> rx" where
  "rx_str_i l u = rx_seq (map2 rx_lit_i l u)"

definition rx_rep :: "nat \<Rightarrow> rx \<Rightarrow> rx" where
  "rx_rep n r = rx_seq (replicate n r)"

text \<open>A compiled pattern: its text (the attribute \<^verbatim>\<open>pattern\<close>) and what it matches.\<close>

record re_Pattern =
  source :: string
  prog :: rx

definition search :: "re_Pattern \<Rightarrow> string \<Rightarrow> bool" where
  "search p l = search_from (prog p) None l"

section \<open>static\_analysis\<close>

definition bs :: string where
  "bs = [CHR 0x5C]"

definition sql_keyword :: rx where
  "sql_keyword =
     rx_alt (rx_str_i ''select'' ''SELECT'')
       [rx_str_i ''update'' ''UPDATE'', rx_str_i ''delete'' ''DELETE'', rx_str_i ''insert'' ''INSERT'']"

definition quote_class :: rx where
  "quote_class = Sym (\<lambda>x. x = CHR 0x27 \<or> x = CHR 0x22)"

text \<open>
  \<^verbatim>\<open>(SELECT|UPDATE|DELETE|INSERT)\s+.+\s+(FROM|INTO)\s+.+\+.+\<close> and
  \<^verbatim>\<open>(SELECT|UPDATE|DELETE|INSERT).*(%s|\{.*\})\<close>, both with \<^verbatim>\<open>re.IGNORECASE\<close>.
\<close>

definition sql_concat_pattern :: re_Pattern where
  "sql_concat_pattern =
     \<lparr>source = ''(SELECT|UPDATE|DELETE|INSERT)'' @ bs @ ''s+.+'' @ bs @ ''s+(FROM|INTO)'' @ bs
                @ ''s+.+'' @ bs @ ''+.+'',
      prog = rx_seq [sql_keyword, rx_plus rx_space, rx_plus rx_dot, rx_plus rx_space,
                     Alt (rx_str_i ''from'' ''FROM'') (rx_str_i ''into'' ''INTO''),
                     rx_plus rx_space, rx_plus rx_dot, rx_lit CHR ''+'', rx_plus rx_dot]\<rparr>"

definition sql_format_pattern :: re_Pattern where
  "sql_format_pattern =
     \<lparr>source = ''(SELECT|UPDATE|DELETE|INSERT).*(%s|'' @ bs @ ''{.*'' @ bs @ ''})'',
      prog = rx_seq [sql_keyword, Star rx_dot,
                     Alt (Seq (rx_lit CHR ''%'') (rx_lit_i CHR ''s'' CHR ''S''))
                         (rx_seq [rx_lit CHR ''{'', Star rx_dot, rx_lit CHR ''}''])]\<rparr>"

definition SQL_INJECTION_PATTERNS :: "re_Pattern list" where
  "SQL_INJECTION_PATTERNS = [sql_concat_pattern, sql_format_pattern]"

text \<open>
  \<^verbatim>\<open>(password|passwd|pwd|secret|token|api_key)\s*=\s*['\"].+['\"]\<close> with
  \<^verbatim>\<open>re.IGNORECASE\<close>, and \<^verbatim>\<open>AKIA[0-9A-Z]{16}\<close>.
\<close>

definition credential_assignment_pattern :: re_Pattern where
  "credential_assignment_pattern =
     \<lparr>source = ''(password|passwd|pwd|secret|token|api_key)'' @ bs @ ''s*='' @ bs @ ''s*[''
                @ [CHR 0x27] @ bs @ [CHR 0x22] @ ''].+['' @ [CHR 0x27] @ bs @ [CHR 0x22] @ '']'',
      prog = rx_seq [rx_alt (rx_str_i ''password'' ''PASSWORD'')
                       [rx_str_i ''passwd'' ''PASSWD'', rx_str_i ''pwd'' ''PWD'',
                        rx_str_i ''secret'' ''SECRET'', rx_str_i ''token'' ''TOKEN'',
                        rx_str_i ''api_key'' ''API_KEY''],
                     Star rx_space, rx_lit CHR ''='', Star rx_space,
                     quote_class, rx_plus rx_dot, quote_class]\<rparr>"

definition access_key_pattern :: re_Pattern where
  "access_key_pattern =
     \<lparr>source = ''AKIA[0-9A-Z]{16}'',
      prog = Seq (rx_str ''AKIA'')
                 (rx_rep 16 (Sym (\<lambda>x. in_range CHR ''0'' CHR ''9'' x \<or> in_range CHR ''A'' CHR ''Z'' x)))\<rparr>"

definition HARDCODED_CREDENTIAL_PATTERNS :: "re_Pattern list" where
  "HARDCODED_CREDENTIAL_PATTERNS = [credential_assignment_pattern, access_key_pattern]"

text \<open>\<^verbatim>\<open>\beval\(\<close> and \<^verbatim>\<open>\bexec\(\<close>.\<close>

definition eval_pattern :: re_Pattern where
  "eval_pattern = \<lparr>source = bs @ ''beval'' @ bs @ ''('', prog = Seq WordB (rx_str ''eval('')\<rparr>"

definition exec_pattern :: re_Pattern where
  "exec_pattern = \<lparr>source = bs @ ''bexec'' @ bs @ ''('', prog = Seq WordB (rx_str ''exec('')\<rparr>"

definition UNSAFE_EVAL_PATTERNS :: "re_Pattern list" where
  "UNSAFE_EVAL_PATTERNS = [eval_pattern, exec_pattern]"

text \<open>
  \<^verbatim>\<open>
  findings = []
  for idx, line in enumerate(lines, start=1):
      for pattern in patterns:
          if pattern.search(line):
              findings.append({"rule": rule_name, "line": idx,
                               "snippet": line.strip(), "pattern": pattern.pattern})
  return findings
  \<close>
  The body of \<^verbatim>\<open>_scan_patterns\<close> (here \<open>scan_patterns\<close>: a name cannot start
  with an underscore): the inner loop and the outer loop, each passing the list being
  built. The loop variable \<^verbatim>\<open>line\<close> is \<open>l\<close>, the field \<open>line\<close> being the line number.
\<close>

primrec scan_line :: "re_Pattern list \<Rightarrow> string \<Rightarrow> nat \<Rightarrow> string \<Rightarrow> finding list \<Rightarrow> finding list" where
  "scan_line [] rule_name idx l findings = findings"
| "scan_line (p # ps) rule_name idx l findings =
     scan_line ps rule_name idx l
       (if search p l
        then findings @ [\<lparr>rule = rule_name, line = idx, snippet = strip l, pattern = source p\<rparr>]
        else findings)"

primrec scan_lines :: "string list \<Rightarrow> nat \<Rightarrow> re_Pattern list \<Rightarrow> string \<Rightarrow> finding list \<Rightarrow> finding list" where
  "scan_lines [] idx patterns rule_name findings = findings"
| "scan_lines (l # ls) idx patterns rule_name findings =
     scan_lines ls (Suc idx) patterns rule_name (scan_line patterns rule_name idx l findings)"

definition scan_patterns :: "string list \<Rightarrow> re_Pattern list \<Rightarrow> string \<Rightarrow> finding list" where
  "scan_patterns ls patterns rule_name = scan_lines ls 1 patterns rule_name []"

definition analyze_code_static :: "string \<Rightarrow> finding list" where
  "analyze_code_static code =
     (let ls = splitlines code;
          findings = [];
          findings = findings @ scan_patterns ls SQL_INJECTION_PATTERNS ''SQL_INJECTION'';
          findings = findings @ scan_patterns ls HARDCODED_CREDENTIAL_PATTERNS ''HARDCODED_CREDENTIAL'';
          findings = findings @ scan_patterns ls UNSAFE_EVAL_PATTERNS ''UNSAFE_EVAL''
      in findings)"

text \<open>The three calls of \<open>analyze_code_static\<close>, in their order: each rule name with
  its patterns.\<close>

definition rule_groups :: "(string \<times> re_Pattern list) list" where
  "rule_groups =
     [(''SQL_INJECTION'', SQL_INJECTION_PATTERNS),
      (''HARDCODED_CREDENTIAL'', HARDCODED_CREDENTIAL_PATTERNS),
      (''UNSAFE_EVAL'', UNSAFE_EVAL_PATTERNS)]"

section \<open>ml\_model\<close>










section \<open>hybrid\_detector.analyze\_file\<close>

record report =
  file_path :: string
  static_findings :: "finding list"
  ml_result :: pydict
  severity :: string


section \<open>Inputs used in the examples\<close>

definition example_finding :: finding where
  "example_finding =
     \<lparr>rule = ''UNSAFE_EVAL'', line = 1, snippet = ''eval(x)'', pattern = bs @ ''beval'' @ bs @ ''(''\<rparr>"




definition password_line :: string where
  \<open>password_line = ''password = "abc123"''\<close>

text \<open>Five lines: an empty one, an indented assignment, the password, an empty one,
  a comment.\<close>

definition example_file :: string where
  "example_file =
     [CHR 0x0A] @ ''  x = 1'' @ [CHR 0x0A] @ password_line @ [CHR 0x0A, CHR 0x0A] @ ''# end''"

text \<open>Two lines, the second calling \<^verbatim>\<open>eval\<close> and \<^verbatim>\<open>exec\<close>.\<close>

definition example_eval_file :: string where
  "example_eval_file = ''x = 1'' @ [CHR 0x0D, CHR 0x0A] @ ''  y = eval(exec(z))  ''"

section \<open>Properties of the severity decision\<close>

text \<open>
  Claim C1. With at least one finding and a probability that reaches the threshold,
  the severity is to be the string \<open>HIGH\<close>. The function returns \<open>HIGHty\<close> there:
  its docstring, the docstring of \<open>analyze_file\<close> and the comparison
  \<^verbatim>\<open>result["severity"] == "HIGH"\<close> of the webhook handler all expect \<open>HIGH\<close>.
\<close>

theorem compute_severity_both_flags:
  assumes "findings \<noteq> []"
    and "dict_get res ''probability'' (PyFloat (Finite 0)) = PyFloat p"
    and "py_ge p thr"
  shows "compute_severity findings res thr = Inr ''HIGHty''
       \<and> compute_severity findings res thr \<noteq> Inr ''HIGH''"
  using assms by (simp add: compute_severity_def Let_def)

theorem compute_severity_both_flags_witness:
  "compute_severity [example_finding]
     [''label'' \<mapsto> PyStr ''vulnerable'', ''probability'' \<mapsto> PyFloat (Finite 0.9)]
     default_threshold = Inr ''HIGHty''"
  using compute_severity_both_flags [of "[example_finding]"
      "[''label'' \<mapsto> PyStr ''vulnerable'', ''probability'' \<mapsto> PyFloat (Finite 0.9)]"
      "Finite 0.9" default_threshold]
  by (simp add: dict_get_def default_threshold_def)

text \<open>
  Claim C2. With no finding, a probability below the threshold and the label
  \<open>safe\<close>, the severity is to be the string \<open>SAFE\<close>. The function returns
  \<open>SAFEtt\<close> there.
\<close>

theorem compute_severity_no_flag:
  assumes "dict_get res ''probability'' (PyFloat (Finite 0)) = PyFloat p"
    and "\<not> py_ge p thr"
    and "res ''label'' = Some (PyStr ''safe'')"
  shows "compute_severity [] res thr = Inr ''SAFEtt''
       \<and> compute_severity [] res thr \<noteq> Inr ''SAFE''"
  using assms by (simp add: compute_severity_def Let_def)

theorem compute_severity_no_flag_witness:
  "compute_severity []
     [''label'' \<mapsto> PyStr ''safe'', ''probability'' \<mapsto> PyFloat (Finite 0.1)]
     default_threshold = Inr ''SAFEtt''"
  using compute_severity_no_flag [of
      "[''label'' \<mapsto> PyStr ''safe'', ''probability'' \<mapsto> PyFloat (Finite 0.1)]"
      "Finite 0.1" default_threshold]
  by (simp add: dict_get_def default_threshold_def)

text \<open>
  Claim C3. When exactly one of the two flags is raised (the static flag: the list
  of findings is not empty; the model flag: the probability reaches the threshold or
  the label is \<open>vulnerable\<close>), the severity is \<open>MEDIUM\<close>. The probability is the
  float stored under \<open>probability\<close>, or 0.0 when the key is missing.
\<close>

theorem compute_severity_one_flag:
  assumes "dict_get res ''probability'' (PyFloat (Finite 0)) = PyFloat p"
    and "(findings \<noteq> []) \<noteq>
         (py_ge p thr \<or> res ''label'' = Some (PyStr ''vulnerable''))"
  shows "compute_severity findings res thr = Inr ''MEDIUM''"
  using assms by (auto simp add: compute_severity_def Let_def)

text \<open>The case the claim singles out: no finding, a probability below the threshold,
  and the label \<open>vulnerable\<close>.\<close>

theorem compute_severity_one_flag_witness:
  "compute_severity []
     [''label'' \<mapsto> PyStr ''vulnerable'', ''probability'' \<mapsto> PyFloat (Finite 0.2)]
     default_threshold = Inr ''MEDIUM''"
  using compute_severity_one_flag [of
      "[''label'' \<mapsto> PyStr ''vulnerable'', ''probability'' \<mapsto> PyFloat (Finite 0.2)]"
      "Finite 0.2" "[]" default_threshold]
  by (simp add: dict_get_def default_threshold_def)

text \<open>
  Claim C8. The severity depends on the findings only through their being empty or
  not, and on the result of the model only through the entries \<open>probability\<close> and
  \<open>label\<close>: two calls that agree on these (and on the threshold) return the same.
\<close>

theorem compute_severity_pure:
  assumes "(fs1 = []) = (fs2 = [])"
    and "m1 ''probability'' = m2 ''probability''"
    and "m1 ''label'' = m2 ''label''"
  shows "compute_severity fs1 m1 t = compute_severity fs2 m2 t"
  using assms by (auto simp add: compute_severity_def Let_def dict_get_def split: sum.splits option.splits)

theorem compute_severity_pure_witness:
  "compute_severity [example_finding]
     [''label'' \<mapsto> PyStr ''safe'', ''probability'' \<mapsto> PyFloat (Finite 0.3)] default_threshold
   = compute_severity
     [example_finding\<lparr>line := 7\<rparr>, example_finding\<lparr>rule := ''SQL_INJECTION''\<rparr>]
     [''label'' \<mapsto> PyStr ''safe'', ''probability'' \<mapsto> PyFloat (Finite 0.3),
      ''note'' \<mapsto> PyStr ''x''] default_threshold"
  using compute_severity_pure [of "[example_finding]"
      "[example_finding\<lparr>line := 7\<rparr>, example_finding\<lparr>rule := ''SQL_INJECTION''\<rparr>]"
      "[''label'' \<mapsto> PyStr ''safe'', ''probability'' \<mapsto> PyFloat (Finite 0.3)]"
      "[''label'' \<mapsto> PyStr ''safe'', ''probability'' \<mapsto> PyFloat (Finite 0.3),
        ''note'' \<mapsto> PyStr ''x'']" default_threshold]
  by simp

section \<open>Properties of the scorer\<close>







section \<open>Properties of the orchestrator\<close>



section \<open>Properties of the rule matcher\<close>

subsection \<open>The two loops\<close>

text \<open>The inner loop appends, to what it was given, one finding for each pattern that
  matches the line; the outer loop does so for each line, counting from its start
  index.\<close>

lemma scan_line_eq:
  "scan_line ps r i l acc =
     acc @ map (\<lambda>p. \<lparr>rule = r, line = i, snippet = strip l, pattern = source p\<rparr>)
               (filter (\<lambda>p. search p l) ps)"
  by (induction ps arbitrary: acc) simp_all

lemma scan_lines_eq:
  "scan_lines ls i ps r acc =
     acc @ concat (map (\<lambda>(j, l). map (\<lambda>p. \<lparr>rule = r, line = j, snippet = strip l, pattern = source p\<rparr>)
                                      (filter (\<lambda>p. search p l) ps))
                       (enumerate i ls))"
  by (induction ls arbitrary: i acc) (simp_all add: scan_line_eq)

lemma scan_lines_acc: "scan_lines ls i ps r acc = acc @ scan_lines ls i ps r []"
  by (simp add: scan_lines_eq)

lemma scan_lines_Cons:
  "scan_lines (l # ls) i ps r [] =
     map (\<lambda>p. \<lparr>rule = r, line = i, snippet = strip l, pattern = source p\<rparr>) (filter (\<lambda>p. search p l) ps)
     @ scan_lines ls (Suc i) ps r []"
  by (simp add: scan_lines_eq)

lemma scan_lines_member:
  "f \<in> set (scan_lines ls i ps r []) \<longleftrightarrow>
     (\<exists>k p. k < length ls \<and> p \<in> set ps \<and> search p (ls ! k) \<and>
            f = \<lparr>rule = r, line = i + k, snippet = strip (ls ! k), pattern = source p\<rparr>)"
proof (induction ls arbitrary: i)
  case Nil
  show ?case by simp
next
  case (Cons l ls)
  show ?case
  proof
    assume "f \<in> set (scan_lines (l # ls) i ps r [])"
    then consider (hd) "f \<in> (\<lambda>p. \<lparr>rule = r, line = i, snippet = strip l, pattern = source p\<rparr>) ` {p \<in> set ps. search p l}"
      | (tl) "f \<in> set (scan_lines ls (Suc i) ps r [])"
      by (auto simp del: scan_lines.simps simp add: scan_lines_Cons)
    then show "\<exists>k p. k < length (l # ls) \<and> p \<in> set ps \<and> search p ((l # ls) ! k) \<and>
            f = \<lparr>rule = r, line = i + k, snippet = strip ((l # ls) ! k), pattern = source p\<rparr>"
    proof cases
      case hd
      then obtain p where "p \<in> set ps" "search p l" "f = \<lparr>rule = r, line = i, snippet = strip l, pattern = source p\<rparr>"
        by auto
      then show ?thesis by (intro exI [of _ 0] exI [of _ p]) simp
    next
      case tl
      then obtain k p where "k < length ls" "p \<in> set ps" "search p (ls ! k)"
        "f = \<lparr>rule = r, line = Suc i + k, snippet = strip (ls ! k), pattern = source p\<rparr>"
        using Cons.IH by blast
      then show ?thesis by (intro exI [of _ "Suc k"] exI [of _ p]) simp
    qed
  next
    assume "\<exists>k p. k < length (l # ls) \<and> p \<in> set ps \<and> search p ((l # ls) ! k) \<and>
            f = \<lparr>rule = r, line = i + k, snippet = strip ((l # ls) ! k), pattern = source p\<rparr>"
    then obtain k p where kp: "k < length (l # ls)" "p \<in> set ps" "search p ((l # ls) ! k)"
        "f = \<lparr>rule = r, line = i + k, snippet = strip ((l # ls) ! k), pattern = source p\<rparr>"
      by blast
    show "f \<in> set (scan_lines (l # ls) i ps r [])"
    proof (cases k)
      case 0
      with kp show ?thesis by (simp del: scan_lines.simps add: scan_lines_Cons)
    next
      case (Suc k')
      with kp have "f \<in> set (scan_lines ls (Suc i) ps r [])"
        using Cons.IH [of "Suc i"] by auto
      then show ?thesis by (simp del: scan_lines.simps add: scan_lines_Cons)
    qed
  qed
qed

lemma scan_lines_line_ge: "f \<in> set (scan_lines ls i ps r []) \<Longrightarrow> i \<le> line f"
  by (auto simp add: scan_lines_member)

lemma sorted_map_same: "sorted (map (\<lambda>_. c :: nat) xs)"
  by (induction xs) simp_all

lemma scan_lines_sorted: "sorted (map line (scan_lines ls i ps r []))"
proof (induction ls arbitrary: i)
  case Nil
  show ?case by simp
next
  case (Cons l ls)
  have "\<And>f. f \<in> set (scan_lines ls (Suc i) ps r []) \<Longrightarrow> i \<le> line f"
    using scan_lines_line_ge [of _ ls "Suc i" ps r] by fastforce
  with Cons.IH [of "Suc i"] show ?case
    by (auto simp del: scan_lines.simps simp add: scan_lines_Cons sorted_append o_def sorted_map_same)
qed

lemma scan_lines_at_line:
  "filter (\<lambda>f. line f = j) (scan_lines ls i ps r []) =
     (if i \<le> j \<and> j < i + length ls
      then map (\<lambda>p. \<lparr>rule = r, line = j, snippet = strip (ls ! (j - i)), pattern = source p\<rparr>)
               (filter (\<lambda>p. search p (ls ! (j - i))) ps)
      else [])"
proof (induction ls arbitrary: i)
  case Nil
  show ?case by auto
next
  case (Cons l ls)
  have hd_eq: "filter (\<lambda>f. line f = j)
          (map (\<lambda>p. \<lparr>rule = r, line = i, snippet = strip l, pattern = source p\<rparr>) (filter (\<lambda>p. search p l) ps))
        = (if j = i then map (\<lambda>p. \<lparr>rule = r, line = i, snippet = strip l, pattern = source p\<rparr>) (filter (\<lambda>p. search p l) ps) else [])"
    by (auto simp add: filter_map o_def)
  show ?case
  proof (cases "j = i")
    case True
    then have "filter (\<lambda>f. line f = j) (scan_lines ls (Suc i) ps r []) = []"
      using Cons.IH [of "Suc i"] by simp
    with True hd_eq show ?thesis by (simp del: scan_lines.simps add: scan_lines_Cons)
  next
    case False
    then show ?thesis
      using Cons.IH [of "Suc i"] hd_eq
      by (auto simp del: scan_lines.simps simp add: scan_lines_Cons Suc_diff_le)
  qed
qed

lemma scan_lines_rule: "f \<in> set (scan_lines ls i ps r []) \<Longrightarrow> rule f = r"
  by (auto simp add: scan_lines_member)

lemma scan_patterns_member:
  "f \<in> set (scan_patterns ls ps r) \<longleftrightarrow>
     (\<exists>k p. k < length ls \<and> p \<in> set ps \<and> search p (ls ! k) \<and>
            f = \<lparr>rule = r, line = Suc k, snippet = strip (ls ! k), pattern = source p\<rparr>)"
  by (simp add: scan_patterns_def scan_lines_member)

lemma scan_patterns_filter_rule:
  "filter (\<lambda>f. rule f = g) (scan_patterns ls ps r) = (if g = r then scan_patterns ls ps r else [])"
  by (auto simp add: filter_empty_conv filter_id_conv scan_patterns_member)

lemma scan_patterns_sorted: "sorted (map line (scan_patterns ls ps r))"
  by (simp add: scan_patterns_def scan_lines_sorted)

lemma scan_patterns_at_line:
  "filter (\<lambda>f. line f = j) (scan_patterns ls ps r) =
     (if 1 \<le> j \<and> j \<le> length ls
      then map (\<lambda>p. \<lparr>rule = r, line = j, snippet = strip (ls ! (j - 1)), pattern = source p\<rparr>)
               (filter (\<lambda>p. search p (ls ! (j - 1))) ps)
      else [])"
  unfolding scan_patterns_def scan_lines_at_line by auto

lemma analyze_code_static_eq:
  "analyze_code_static code =
     scan_patterns (splitlines code) SQL_INJECTION_PATTERNS ''SQL_INJECTION''
     @ scan_patterns (splitlines code) HARDCODED_CREDENTIAL_PATTERNS ''HARDCODED_CREDENTIAL''
     @ scan_patterns (splitlines code) UNSAFE_EVAL_PATTERNS ''UNSAFE_EVAL''"
  by (simp add: analyze_code_static_def Let_def)

lemma filter_conj_rule_line:
  "filter (\<lambda>f. rule f = g \<and> line f = j) xs = filter (\<lambda>f. line f = j) (filter (\<lambda>f. rule f = g) xs)"
  by (induction xs) auto

subsection \<open>The patterns on the example lines\<close>

lemma password_line_sql_concat: "\<not> search sql_concat_pattern password_line"
  by code_simp
lemma password_line_sql_format: "\<not> search sql_format_pattern password_line"
  by code_simp
lemma password_line_credential: "search credential_assignment_pattern password_line"
  by code_simp
lemma password_line_access_key: "\<not> search access_key_pattern password_line"
  by code_simp
lemma password_line_eval: "\<not> search eval_pattern password_line"
  by code_simp
lemma password_line_exec: "\<not> search exec_pattern password_line"
  by code_simp
lemma password_line_strip: "strip password_line = password_line"
  by code_simp

lemma example_file_lines: "splitlines example_file = ['''', ''  x = 1'', password_line, '''', ''# end'']"
  by code_simp
lemma example_file_other_lines: "\<forall>l \<in> {'''', ''  x = 1'', '''', ''# end''}.
     \<forall>p \<in> set (SQL_INJECTION_PATTERNS @ HARDCODED_CREDENTIAL_PATTERNS @ UNSAFE_EVAL_PATTERNS). \<not> search p l"
  by code_simp

lemma example_eval_file_lines: "splitlines example_eval_file = [''x = 1'', ''  y = eval(exec(z))  '']"
  by code_simp
lemma example_eval_file_matches: "filter (\<lambda>p. search p ''  y = eval(exec(z))  '') UNSAFE_EVAL_PATTERNS = UNSAFE_EVAL_PATTERNS"
  unfolding UNSAFE_EVAL_PATTERNS_def
proof -
  have "search eval_pattern ''  y = eval(exec(z))  ''"
  by code_simp
  moreover have "search exec_pattern ''  y = eval(exec(z))  ''"
  by code_simp
  ultimately show "filter (\<lambda>p. search p ''  y = eval(exec(z))  '') [eval_pattern, exec_pattern] = [eval_pattern, exec_pattern]"
    by simp
qed
lemma example_eval_file_strip: "strip ''  y = eval(exec(z))  '' = ''y = eval(exec(z))''"
  by code_simp

lemma example_eval_file_findings:
  "analyze_code_static example_eval_file =
     [\<lparr>rule = ''UNSAFE_EVAL'', line = 2, snippet = ''y = eval(exec(z))'', pattern = source eval_pattern\<rparr>,
      \<lparr>rule = ''UNSAFE_EVAL'', line = 2, snippet = ''y = eval(exec(z))'', pattern = source exec_pattern\<rparr>]"
  by code_simp

subsection \<open>The claims\<close>

text \<open>
  Claim C5. The findings come grouped by rule, in the order \<open>SQL_INJECTION\<close>,
  \<open>HARDCODED_CREDENTIAL\<close>, \<open>UNSAFE_EVAL\<close>; within a rule the line numbers ascend;
  and the findings of a rule at a line are, in the order of the rule's patterns, one
  for each pattern of the rule that matches that line (none at a line number outside
  the text). So a line gives as many findings of a rule as patterns of the rule match
  it.
\<close>

theorem analyze_code_static_order:
  "analyze_code_static code =
       filter (\<lambda>f. rule f = ''SQL_INJECTION'') (analyze_code_static code)
     @ filter (\<lambda>f. rule f = ''HARDCODED_CREDENTIAL'') (analyze_code_static code)
     @ filter (\<lambda>f. rule f = ''UNSAFE_EVAL'') (analyze_code_static code)
   \<and> (\<forall>g. sorted (map line (filter (\<lambda>f. rule f = g) (analyze_code_static code))))
   \<and> (\<forall>(g, ps) \<in> set rule_groups. \<forall>j.
         filter (\<lambda>f. rule f = g \<and> line f = j) (analyze_code_static code) =
           (if 1 \<le> j \<and> j \<le> length (splitlines code)
            then map (\<lambda>p. \<lparr>rule = g, line = j, snippet = strip (splitlines code ! (j - 1)),
                             pattern = source p\<rparr>)
                     (filter (\<lambda>p. search p (splitlines code ! (j - 1))) ps)
            else []))"
proof (intro conjI)
  show "analyze_code_static code =
       filter (\<lambda>f. rule f = ''SQL_INJECTION'') (analyze_code_static code)
     @ filter (\<lambda>f. rule f = ''HARDCODED_CREDENTIAL'') (analyze_code_static code)
     @ filter (\<lambda>f. rule f = ''UNSAFE_EVAL'') (analyze_code_static code)"
    by (simp add: analyze_code_static_eq scan_patterns_filter_rule)
  show "\<forall>g. sorted (map line (filter (\<lambda>f. rule f = g) (analyze_code_static code)))"
    by (simp add: analyze_code_static_eq scan_patterns_filter_rule scan_patterns_sorted)
  show "\<forall>(g, ps) \<in> set rule_groups. \<forall>j.
         filter (\<lambda>f. rule f = g \<and> line f = j) (analyze_code_static code) =
           (if 1 \<le> j \<and> j \<le> length (splitlines code)
            then map (\<lambda>p. \<lparr>rule = g, line = j, snippet = strip (splitlines code ! (j - 1)),
                             pattern = source p\<rparr>)
                     (filter (\<lambda>p. search p (splitlines code ! (j - 1))) ps)
            else [])"
    unfolding filter_conj_rule_line
    by (simp add: rule_groups_def analyze_code_static_eq scan_patterns_filter_rule scan_patterns_at_line)
qed

text \<open>The second line of the example matches both patterns of \<open>UNSAFE_EVAL\<close> and
  gives two findings of that rule.\<close>

theorem analyze_code_static_order_witness:
  "length (splitlines example_eval_file) = 2
   \<and> filter (\<lambda>f. rule f = ''UNSAFE_EVAL'' \<and> line f = 2) (analyze_code_static example_eval_file) =
       [\<lparr>rule = ''UNSAFE_EVAL'', line = 2, snippet = ''y = eval(exec(z))'', pattern = source eval_pattern\<rparr>,
        \<lparr>rule = ''UNSAFE_EVAL'', line = 2, snippet = ''y = eval(exec(z))'', pattern = source exec_pattern\<rparr>]"
proof -
  have g: "(''UNSAFE_EVAL'', UNSAFE_EVAL_PATTERNS) \<in> set rule_groups"
    by (simp add: rule_groups_def)
  from analyze_code_static_order [of example_eval_file] g
  have "filter (\<lambda>f. rule f = ''UNSAFE_EVAL'' \<and> line f = 2) (analyze_code_static example_eval_file) =
           (if 1 \<le> (2::nat) \<and> 2 \<le> length (splitlines example_eval_file)
            then map (\<lambda>p. \<lparr>rule = ''UNSAFE_EVAL'', line = 2, snippet = strip (splitlines example_eval_file ! (2 - 1)),
                             pattern = source p\<rparr>)
                     (filter (\<lambda>p. search p (splitlines example_eval_file ! (2 - 1))) UNSAFE_EVAL_PATTERNS)
            else [])"
    by blast
  then show ?thesis
    unfolding example_eval_file_lines by (simp add: example_eval_file_matches example_eval_file_strip) (simp add: UNSAFE_EVAL_PATTERNS_def)
qed

text \<open>
  Claim C6. When the text has five lines, the third is the password assignment and
  no pattern matches any of the other four, the analysis returns exactly one finding:
  rule \<open>HARDCODED_CREDENTIAL\<close>, line 3.
\<close>

theorem analyze_code_static_password_line:
  assumes "splitlines code = [l1, l2, password_line, l4, l5]"
    and "\<forall>l \<in> {l1, l2, l4, l5}.
           \<forall>p \<in> set (SQL_INJECTION_PATTERNS @ HARDCODED_CREDENTIAL_PATTERNS @ UNSAFE_EVAL_PATTERNS).
             \<not> search p l"
  shows "analyze_code_static code =
           [\<lparr>rule = ''HARDCODED_CREDENTIAL'', line = 3, snippet = password_line,
             pattern = source credential_assignment_pattern\<rparr>]"
proof -
  have none: "\<And>l p. l \<in> {l1, l2, l4, l5} \<Longrightarrow>
      p \<in> {sql_concat_pattern, sql_format_pattern, credential_assignment_pattern,
            access_key_pattern, eval_pattern, exec_pattern} \<Longrightarrow> \<not> search p l"
    using assms(2)
    by (simp add: SQL_INJECTION_PATTERNS_def HARDCODED_CREDENTIAL_PATTERNS_def UNSAFE_EVAL_PATTERNS_def) blast
  have sql: "scan_patterns [l1, l2, password_line, l4, l5] SQL_INJECTION_PATTERNS ''SQL_INJECTION'' = []"
    by (simp add: scan_patterns_def SQL_INJECTION_PATTERNS_def none password_line_sql_concat password_line_sql_format)
  have ev: "scan_patterns [l1, l2, password_line, l4, l5] UNSAFE_EVAL_PATTERNS ''UNSAFE_EVAL'' = []"
    by (simp add: scan_patterns_def UNSAFE_EVAL_PATTERNS_def none password_line_eval password_line_exec)
  have cred: "scan_patterns [l1, l2, password_line, l4, l5] HARDCODED_CREDENTIAL_PATTERNS ''HARDCODED_CREDENTIAL''
      = [\<lparr>rule = ''HARDCODED_CREDENTIAL'', line = 3, snippet = password_line,
             pattern = source credential_assignment_pattern\<rparr>]"
    by (simp add: scan_patterns_def HARDCODED_CREDENTIAL_PATTERNS_def none password_line_credential password_line_access_key password_line_strip eval_nat_numeral)
  show ?thesis
    unfolding analyze_code_static_eq assms(1) sql ev cred by simp
qed

text \<open>In the example the first line is empty and the second is indented: both keep
  their place in the numbering.\<close>

theorem analyze_code_static_password_line_witness:
  "analyze_code_static example_file =
     [\<lparr>rule = ''HARDCODED_CREDENTIAL'', line = 3, snippet = password_line,
       pattern = source credential_assignment_pattern\<rparr>]"
  using analyze_code_static_password_line [OF example_file_lines] example_file_other_lines by simp

text \<open>
  Claim C9. Every finding returned for a text has a line number between 1 and the
  number of lines, the trimmed text of that line as its snippet, one of the three rule
  names as its rule, and as its pattern the text of a pattern of that rule which
  matches that line.
\<close>

theorem analyze_code_static_findings_consistent:
  "\<forall>f \<in> set (analyze_code_static code).
     1 \<le> line f \<and> line f \<le> length (splitlines code)
     \<and> snippet f = strip (splitlines code ! (line f - 1))
     \<and> rule f \<in> {''SQL_INJECTION'', ''HARDCODED_CREDENTIAL'', ''UNSAFE_EVAL''}
     \<and> (\<exists>ps p. (rule f, ps) \<in> set rule_groups \<and> p \<in> set ps \<and> pattern f = source p
              \<and> search p (splitlines code ! (line f - 1)))"
proof
  fix f
  assume "f \<in> set (analyze_code_static code)"
  then obtain r ps where g: "(r, ps) \<in> set rule_groups"
      and f: "f \<in> set (scan_patterns (splitlines code) ps r)"
    by (auto simp add: analyze_code_static_eq rule_groups_def)
  from f obtain k p where k: "k < length (splitlines code)" and p: "p \<in> set ps"
      and s: "search p (splitlines code ! k)"
      and fe: "f = \<lparr>rule = r, line = Suc k, snippet = strip (splitlines code ! k), pattern = source p\<rparr>"
    unfolding scan_patterns_member by blast
  from g have "r \<in> {''SQL_INJECTION'', ''HARDCODED_CREDENTIAL'', ''UNSAFE_EVAL''}"
    by (auto simp add: rule_groups_def)
  with g k p s fe
  show "1 \<le> line f \<and> line f \<le> length (splitlines code)
     \<and> snippet f = strip (splitlines code ! (line f - 1))
     \<and> rule f \<in> {''SQL_INJECTION'', ''HARDCODED_CREDENTIAL'', ''UNSAFE_EVAL''}
     \<and> (\<exists>ps p. (rule f, ps) \<in> set rule_groups \<and> p \<in> set ps \<and> pattern f = source p
              \<and> search p (splitlines code ! (line f - 1)))"
    by auto
qed

theorem analyze_code_static_findings_consistent_witness:
  "\<lparr>rule = ''UNSAFE_EVAL'', line = 2, snippet = ''y = eval(exec(z))'',
     pattern = source exec_pattern\<rparr> \<in> set (analyze_code_static example_eval_file)
   \<and> (2::nat) \<le> length (splitlines example_eval_file)
   \<and> ''y = eval(exec(z))'' = strip (splitlines example_eval_file ! 1)
   \<and> (\<exists>ps p. (''UNSAFE_EVAL'', ps) \<in> set rule_groups \<and> p \<in> set ps
          \<and> source exec_pattern = source p
          \<and> search p (splitlines example_eval_file ! 1))"
proof -
  have m: "\<lparr>rule = ''UNSAFE_EVAL'', line = 2, snippet = ''y = eval(exec(z))'',
     pattern = source exec_pattern\<rparr> \<in> set (analyze_code_static example_eval_file)"
    unfolding example_eval_file_findings by simp
  from analyze_code_static_findings_consistent [of example_eval_file] m
  show ?thesis by fastforce
qed

end
